theory Spec2Isabelle
  imports Main
begin

section \<open>Exceptions (include/Exceptions.hpp)\<close>

text \<open>
  The five exception classes. Each constructor carries the message that the throwing
  site passes to the C++ constructor; \<open>what\<close> adds the prefixes that the class
  hierarchy prepends.
\<close>

datatype error =
    ArgumentError string
  | ParseError string
  | ValidationError string
  | MissingArgumentError string
  | UnknownArgumentError string

fun what :: "error \<Rightarrow> string" where
  "what (ArgumentError m) = ''Argument Error: '' @ m"
| "what (ParseError m) = ''Parse Error: '' @ m"
| "what (ValidationError m) = ''Validation Error: '' @ m"
| "what (MissingArgumentError m) = ''Argument Error: '' @ (''Missing required argument: '' @ m)"
| "what (UnknownArgumentError m) = ''Argument Error: '' @ (''Unknown argument: '' @ m)"

section \<open>Argument (Argument.hpp, Argument.cpp)\<close>

datatype ArgumentType = Flag | Option | Positional

text \<open>
  The class \<open>Argument\<close>, field by field. An empty \<open>std::function\<close> validator is
  \<open>None\<close>.
\<close>

record Argument =
  m_shortName :: string
  m_longName :: string
  m_name :: string
  m_description :: string
  m_defaultValue :: string
  m_currentValue :: string
  m_type :: ArgumentType
  m_isRequired :: bool
  m_isSet :: bool
  m_validator :: "(string \<Rightarrow> bool) option"

text \<open>The three constructors; members without an initialiser are empty, false or unset.\<close>

definition Argument_flag :: "string \<Rightarrow> string \<Rightarrow> string \<Rightarrow> Argument" where
  "Argument_flag shortName longName description =
     \<lparr> m_shortName = shortName, m_longName = longName, m_name = [],
       m_description = description, m_defaultValue = [], m_currentValue = [],
       m_type = Flag, m_isRequired = False, m_isSet = False, m_validator = None \<rparr>"

definition Argument_option :: "string \<Rightarrow> string \<Rightarrow> string \<Rightarrow> string \<Rightarrow> Argument" where
  "Argument_option shortName longName description defaultValue =
     \<lparr> m_shortName = shortName, m_longName = longName, m_name = [],
       m_description = description, m_defaultValue = defaultValue, m_currentValue = [],
       m_type = Option, m_isRequired = False, m_isSet = False, m_validator = None \<rparr>"

definition Argument_positional :: "string \<Rightarrow> string \<Rightarrow> bool \<Rightarrow> Argument" where
  "Argument_positional name description required =
     \<lparr> m_shortName = [], m_longName = [], m_name = name,
       m_description = description, m_defaultValue = [], m_currentValue = [],
       m_type = Positional, m_isRequired = required, m_isSet = False, m_validator = None \<rparr>"

text \<open>The chaining setters.\<close>

definition required :: "bool \<Rightarrow> Argument \<Rightarrow> Argument" where
  "required isRequired a = a\<lparr>m_isRequired := isRequired\<rparr>"

definition defaultValue :: "string \<Rightarrow> Argument \<Rightarrow> Argument" where
  "defaultValue v a = a\<lparr>m_defaultValue := v\<rparr>"

definition validator :: "(string \<Rightarrow> bool) \<Rightarrow> Argument \<Rightarrow> Argument" where
  "validator func a = a\<lparr>m_validator := Some func\<rparr>"

text \<open>
  \<open>setValue\<close> and \<open>setFlag\<close> throw before they assign anything, so the failing
  branch returns the error alone and the caller keeps the Argument it had.
\<close>

definition setValue :: "Argument \<Rightarrow> string \<Rightarrow> error + Argument" where
  "setValue a v =
     (if m_type a = Flag then Inl (ValidationError ''Cannot set value for flag argument'')
      else case m_validator a of
             None \<Rightarrow> Inr (a\<lparr>m_currentValue := v, m_isSet := True\<rparr>)
           | Some f \<Rightarrow>
               if \<not> f v then Inl (ValidationError (''Invalid value for argument:'' @ v))
               else Inr (a\<lparr>m_currentValue := v, m_isSet := True\<rparr>))"

definition setFlag :: "Argument \<Rightarrow> bool \<Rightarrow> error + Argument" where
  "setFlag a v =
     (if m_type a \<noteq> Flag then Inl (ValidationError ''Cannot set flag for non-flag argument'')
      else Inr (a\<lparr>m_isSet := v\<rparr>))"

definition validate :: "Argument \<Rightarrow> string \<Rightarrow> bool" where
  "validate a v = (case m_validator a of None \<Rightarrow> True | Some f \<Rightarrow> f v)"

subsection \<open>The numeric conversions of the standard library\<close>

text \<open>
  \<open>std::stoi(value)\<close> is \<open>strtol\<close> in base 10 followed by a range check: leading
  white space of the C locale is skipped, one sign is optional, the longest run of
  decimal digits is read and whatever follows is ignored. It throws
  \<open>std::invalid_argument\<close> when there is no digit and \<open>std::out_of_range\<close> when the
  number does not fit a 32-bit \<open>int\<close>; both are the value \<open>None\<close> here, since
  \<open>get\<close> catches every exception alike.
\<close>

definition isspace :: "char \<Rightarrow> bool" where
  "isspace c = (let n = (of_char c :: nat) in n = 32 \<or> (9 \<le> n \<and> n \<le> 13))"

definition isdigit :: "char \<Rightarrow> bool" where
  "isdigit c = (let n = (of_char c :: nat) in 48 \<le> n \<and> n \<le> 57)"

definition digits_value :: "string \<Rightarrow> int" where
  "digits_value ds = foldl (\<lambda>acc c. 10 * acc + (of_char c - 48)) 0 ds"

definition stoi :: "string \<Rightarrow> int option" where
  "stoi s =
     (let s1 = dropWhile isspace s;
          neg = (s1 \<noteq> [] \<and> hd s1 = CHR ''-'');
          s2 = (if s1 \<noteq> [] \<and> (hd s1 = CHR ''-'' \<or> hd s1 = CHR ''+'') then tl s1 else s1);
          ds = takeWhile isdigit s2;
          v = (if neg then - digits_value ds else digits_value ds)
      in if ds = [] then None
         else if v < - 2147483648 \<or> 2147483647 < v then None
         else Some v)"

text \<open>\<open>std::tolower\<close> in the C locale, on one \<open>unsigned char\<close>.\<close>

definition tolower :: "char \<Rightarrow> char" where
  "tolower c = (let n = (of_char c :: nat) in if 65 \<le> n \<and> n \<le> 90 then char_of (n + 32) else c)"

subsection \<open>Typed retrieval\<close>

text \<open>
  \<open>get<T>\<close>, one function per instantiation. \<open>activeValue\<close> is the local
  \<open>value\<close>: the current value if the Argument is set, else the default.
  \<open>std::stod\<close> yields a floating-point number; it is a parameter \<open>stod\<close> of
  \<open>get_double\<close>, with \<open>None\<close> for a thrown exception.
\<close>

definition activeValue :: "Argument \<Rightarrow> string" where
  "activeValue a = (if m_isSet a then m_currentValue a else m_defaultValue a)"

definition get_string :: "Argument \<Rightarrow> string option" where
  "get_string a =
     (if \<not> m_isSet a \<and> m_defaultValue a = [] then None else Some (activeValue a))"

definition get_int :: "Argument \<Rightarrow> int option" where
  "get_int a =
     (if \<not> m_isSet a \<and> m_defaultValue a = [] then None else stoi (activeValue a))"

definition get_double :: "(string \<Rightarrow> 'd option) \<Rightarrow> Argument \<Rightarrow> 'd option" where
  "get_double stod a =
     (if \<not> m_isSet a \<and> m_defaultValue a = [] then None else stod (activeValue a))"

definition get_bool :: "Argument \<Rightarrow> bool option" where
  "get_bool a =
     (if \<not> m_isSet a \<and> m_defaultValue a = [] then None
      else if m_type a = Flag then Some (m_isSet a)
      else let lowerValue = map tolower (activeValue a)
           in Some (lowerValue = ''true'' \<or> lowerValue = ''1'' \<or>
                    lowerValue = ''yes'' \<or> lowerValue = ''on''))"

definition getString :: "Argument \<Rightarrow> string" where
  "getString a = (case get_string a of Some r \<Rightarrow> r | None \<Rightarrow> [])"

definition getInt :: "Argument \<Rightarrow> error + int" where
  "getInt a =
     (case get_int a of None \<Rightarrow> Inl (ValidationError ''Cannot convert value to int'')
      | Some r \<Rightarrow> Inr r)"

definition getDouble :: "(string \<Rightarrow> 'd option) \<Rightarrow> Argument \<Rightarrow> error + 'd" where
  "getDouble stod a =
     (case get_double stod a of None \<Rightarrow> Inl (ValidationError ''Cannot convert value to double'')
      | Some r \<Rightarrow> Inr r)"

definition getBool :: "Argument \<Rightarrow> bool" where
  "getBool a = (case get_bool a of Some r \<Rightarrow> r | None \<Rightarrow> False)"

section \<open>ArgParser (ArgParser.hpp, ArgParser.cpp)\<close>

text \<open>
  The parser owns its Arguments in \<open>m_arguments\<close>, in declaration order, and
  \<open>m_argMap\<close> maps a name to a pointer into that vector. A pointer is the index of
  the Argument in \<open>m_arguments\<close>, so that a write through the map is seen by every
  later read of the vector, as in the C++.
\<close>

record ArgParser =
  m_programName :: string
  m_parserDescription :: string
  m_version :: string
  m_arguments :: "Argument list"
  m_argMap :: "string \<rightharpoonup> nat"
  m_positionalValues :: "string list"

definition ArgParser_new :: "string \<Rightarrow> string \<Rightarrow> ArgParser" where
  "ArgParser_new programName description =
     \<lparr> m_programName = programName, m_parserDescription = description, m_version = [],
       m_arguments = [], m_argMap = Map.empty, m_positionalValues = [] \<rparr>"

text \<open>
  \<open>addFlag\<close>, \<open>addOption\<close> and \<open>addPositional\<close> return the parser and the
  pointer to the new Argument (the C++ returns the reference).
\<close>

definition addFlag :: "ArgParser \<Rightarrow> string \<Rightarrow> string \<Rightarrow> string \<Rightarrow> ArgParser \<times> nat" where
  "addFlag p shortName longName description =
     (let argPtr = length (m_arguments p);
          p1 = p\<lparr>m_arguments := m_arguments p @ [Argument_flag shortName longName description]\<rparr>;
          p2 = (if shortName \<noteq> [] then p1\<lparr>m_argMap := (m_argMap p1)(shortName \<mapsto> argPtr)\<rparr> else p1);
          p3 = (if longName \<noteq> [] then p2\<lparr>m_argMap := (m_argMap p2)(longName \<mapsto> argPtr)\<rparr> else p2)
      in (p3, argPtr))"

definition addOption :: "ArgParser \<Rightarrow> string \<Rightarrow> string \<Rightarrow> string \<Rightarrow> string \<Rightarrow> ArgParser \<times> nat" where
  "addOption p shortName longName description dflt =
     (let argPtr = length (m_arguments p);
          p1 = p\<lparr>m_arguments := m_arguments p @ [Argument_option shortName longName description dflt]\<rparr>;
          p2 = (if shortName \<noteq> [] then p1\<lparr>m_argMap := (m_argMap p1)(shortName \<mapsto> argPtr)\<rparr> else p1);
          p3 = (if longName \<noteq> [] then p2\<lparr>m_argMap := (m_argMap p2)(longName \<mapsto> argPtr)\<rparr> else p2)
      in (p3, argPtr))"

definition addPositional :: "ArgParser \<Rightarrow> string \<Rightarrow> string \<Rightarrow> bool \<Rightarrow> ArgParser \<times> nat" where
  "addPositional p name description req =
     (let argPtr = length (m_arguments p);
          p1 = p\<lparr>m_arguments := m_arguments p @ [Argument_positional name description req]\<rparr>
      in (p1\<lparr>m_argMap := (m_argMap p1)(name \<mapsto> argPtr)\<rparr>, argPtr))"

text \<open>A call through the returned reference: \<open>parser.addOption(...).required(true)\<close>.\<close>

definition through :: "ArgParser \<Rightarrow> nat \<Rightarrow> (Argument \<Rightarrow> Argument) \<Rightarrow> ArgParser" where
  "through p argPtr f = p\<lparr>m_arguments := (m_arguments p)[argPtr := f (m_arguments p ! argPtr)]\<rparr>"

definition findArgument :: "ArgParser \<Rightarrow> string \<Rightarrow> nat option" where
  "findArgument p name = m_argMap p name"

subsection \<open>Help text\<close>

text \<open>
  \<open>help_text\<close> is \<open>ArgParser::help\<close>.
  \<open>std::left << std::setw(w)\<close> pads the next string with blanks on the right up to
  width \<open>w\<close>. The three loops of \<open>formatArguments\<close> are a maximum, and two filtered
  traversals whose header is written before the first line.
\<close>

definition newline :: char where
  "newline = CHR 0x0A"

definition setw_left :: "nat \<Rightarrow> string \<Rightarrow> string" where
  "setw_left w s = s @ replicate (w - length s) CHR '' ''"

definition formatUsage :: "ArgParser \<Rightarrow> string" where
  "formatUsage p =
     ''Usage: '' @ m_programName p @
     (if \<exists>a \<in> set (m_arguments p). m_type a \<noteq> Positional then '' [OPTIONS]'' else []) @
     concat (map (\<lambda>a. if m_type a = Positional
                       then '' '' @ (if \<not> m_isRequired a then ''['' else []) @ m_name a @
                            (if \<not> m_isRequired a then ''}'' else [])
                       else [])
                 (m_arguments p))"

definition argStr :: "Argument \<Rightarrow> string" where
  "argStr a =
     (let s1 = (if m_shortName a \<noteq> [] then ''-'' @ m_shortName a else [])
      in if m_longName a \<noteq> [] then s1 @ (if s1 \<noteq> [] then '', '' else []) @ ''--'' @ m_longName a
         else s1)"

definition formatArguments :: "ArgParser \<Rightarrow> string" where
  "formatArguments p =
     (let maxWidth = foldl (\<lambda>w a. max w (length (if m_type a = Positional then m_name a else argStr a)))
                           0 (m_arguments p);
          positionals = filter (\<lambda>a. m_type a = Positional) (m_arguments p);
          options = filter (\<lambda>a. m_type a \<noteq> Positional) (m_arguments p);
          hasPositional = (positionals \<noteq> [])
      in (if hasPositional then ''Positional arguments: '' @ [newline] else []) @
         concat (map (\<lambda>a. '' '' @ setw_left maxWidth (m_name a) @ '' '' @ m_description a @
                           (if m_isRequired a then '' (required)'' else []) @ [newline])
                     positionals) @
         (if options \<noteq> [] then (if hasPositional then [newline] else []) @ ''Options: '' @ [newline]
          else []) @
         concat (map (\<lambda>a. '' '' @ setw_left maxWidth (argStr a) @ '' '' @ m_description a @
                           (if m_defaultValue a \<noteq> [] then '' (default: '' @ m_defaultValue a @ '')'' else []) @
                           (if m_isRequired a then '' (required)'' else []) @ [newline])
                     options))"

definition help_text :: "ArgParser \<Rightarrow> string" where
  "help_text p =
     (if m_parserDescription p \<noteq> [] then m_parserDescription p @ [newline, newline] else []) @
     formatUsage p @ [newline, newline] @ formatArguments p @
     (if m_version p \<noteq> [] then [newline] @ ''Version: '' @ m_version p else [])"

subsection \<open>The token pass\<close>

text \<open>
  What a call of the parser leaves behind: it returns, it throws, or it prints the help
  and calls \<open>std::exit\<close>. Each outcome carries the parser state at that moment, which
  is what a caller that catches the exception can still inspect; \<open>Exited\<close> also
  carries the exit status and the text written to standard output.
\<close>

datatype outcome =
    is_Returned: Returned (final: ArgParser)
  | is_Thrown: Thrown (raised: error) (final: ArgParser)
  | is_Exited: Exited (status: int) (printed: string) (final: ArgParser)

definition starts_with :: "string \<Rightarrow> string \<Rightarrow> bool" where
  "starts_with s pre = (take (length pre) s = pre)"

text \<open>\<open>arg.find('=')\<close>: the index of the first \<open>=\<close>, \<open>None\<close> for \<open>npos\<close>.\<close>

fun find_char :: "string \<Rightarrow> char \<Rightarrow> nat option" where
  "find_char [] c = None"
| "find_char (x # xs) c = (if x = c then Some 0 else map_option Suc (find_char xs c))"

text \<open>\<open>s.substr(pos, n)\<close> and \<open>s.substr(pos)\<close>, for \<open>pos\<close> within the string.\<close>

definition substr :: "string \<Rightarrow> nat \<Rightarrow> nat \<Rightarrow> string" where
  "substr s pos n = take n (drop pos s)"

definition substr_from :: "string \<Rightarrow> nat \<Rightarrow> string" where
  "substr_from s pos = drop pos s"

text \<open>
  A write through an \<open>Argument*\<close>. \<open>parseShortOption\<close> and \<open>parseLongOption\<close>
  take the token, and the tokens after it (the range from \<open>it + 1\<close> to \<open>end\<close>);
  they return the tokens that are left when they have advanced the iterator, or the
  exception. Neither changes an Argument before it throws.
\<close>

definition store :: "ArgParser \<Rightarrow> nat \<Rightarrow> Argument \<Rightarrow> ArgParser" where
  "store p argPtr a = p\<lparr>m_arguments := (m_arguments p)[argPtr := a]\<rparr>"

definition parseShortOption ::
  "ArgParser \<Rightarrow> string \<Rightarrow> string list \<Rightarrow> error + (ArgParser \<times> string list)" where
  "parseShortOption p arg rest =
     (let shortName = substr arg 1 1
      in case findArgument p shortName of
           None \<Rightarrow> Inl (UnknownArgumentError arg)
         | Some argument \<Rightarrow>
             if m_type (m_arguments p ! argument) = Flag then
               (case setFlag (m_arguments p ! argument) True of
                  Inl e \<Rightarrow> Inl e
                | Inr a \<Rightarrow> Inr (store p argument a, rest))
             else if length arg > 2 then
               (case setValue (m_arguments p ! argument) (substr_from arg 2) of
                  Inl e \<Rightarrow> Inl e
                | Inr a \<Rightarrow> Inr (store p argument a, rest))
             else
               (case rest of
                  [] \<Rightarrow> Inl (ParseError (''Missing value for option: '' @ arg))
                | v # rest' \<Rightarrow>
                    (case setValue (m_arguments p ! argument) v of
                       Inl e \<Rightarrow> Inl e
                     | Inr a \<Rightarrow> Inr (store p argument a, rest'))))"

definition parseLongOption ::
  "ArgParser \<Rightarrow> string \<Rightarrow> string list \<Rightarrow> error + (ArgParser \<times> string list)" where
  "parseLongOption p arg rest =
     (let eqPos = find_char arg CHR ''='';
          longName = (case eqPos of Some k \<Rightarrow> substr arg 2 (k - 2) | None \<Rightarrow> substr_from arg 2);
          v = (case eqPos of Some k \<Rightarrow> substr_from arg (k + 1) | None \<Rightarrow> [])
      in case findArgument p longName of
           None \<Rightarrow> Inl (UnknownArgumentError arg)
         | Some argument \<Rightarrow>
             if m_type (m_arguments p ! argument) = Flag then
               (if eqPos \<noteq> None
                then Inl (ParseError (''Flag argument cannot have a value: '' @ arg))
                else case setFlag (m_arguments p ! argument) True of
                       Inl e \<Rightarrow> Inl e
                     | Inr a \<Rightarrow> Inr (store p argument a, rest))
             else if eqPos \<noteq> None then
               (case setValue (m_arguments p ! argument) v of
                  Inl e \<Rightarrow> Inl e
                | Inr a \<Rightarrow> Inr (store p argument a, rest))
             else
               (case rest of
                  [] \<Rightarrow> Inl (ParseError (''Missing value for option: '' @ arg))
                | w # rest' \<Rightarrow>
                    (case setValue (m_arguments p ! argument) w of
                       Inl e \<Rightarrow> Inl e
                     | Inr a \<Rightarrow> Inr (store p argument a, rest'))))"

text \<open>
  The \<open>while\<close> loop of \<open>parsePositionalOption\<close>: \<open>arg\<close> is \<open>*it\<close> and
  \<open>rest\<close> the tokens after it. The help test comes first in every iteration.
\<close>

function parsePositionalOption_loop :: "ArgParser \<Rightarrow> string list \<Rightarrow> outcome" where
  "parsePositionalOption_loop p [] = Returned p"
| "parsePositionalOption_loop p (arg # rest) =
     (if arg = ''--help'' \<or> arg = ''-h'' then Exited 0 (help_text p @ [newline]) p
      else if starts_with arg ''--'' then
        (case parseLongOption p arg rest of
           Inl e \<Rightarrow> Thrown e p
         | Inr (p', rest') \<Rightarrow> parsePositionalOption_loop p' rest')
      else if starts_with arg ''-'' \<and> length arg > 1 then
        (case parseShortOption p arg rest of
           Inl e \<Rightarrow> Thrown e p
         | Inr (p', rest') \<Rightarrow> parsePositionalOption_loop p' rest')
      else parsePositionalOption_loop (p\<lparr>m_positionalValues := m_positionalValues p @ [arg]\<rparr>) rest)"
  by pat_completeness auto
termination
  by (relation "measure (\<lambda>(p, args). length args)")
     (auto simp: parseLongOption_def parseShortOption_def Let_def
           split: option.splits if_splits sum.splits list.splits)

subsection \<open>Positional binding and the required-argument check\<close>

text \<open>
  The \<open>for\<close> loop that binds positional values: \<open>vals\<close> is \<open>m_positionalValues\<close>
  and \<open>idx\<close> is \<open>positionalIndex\<close>. It returns the Arguments as the loop leaves
  them, with the exception if \<open>setValue\<close> threw on the way.
\<close>

fun bindPositionals :: "string list \<Rightarrow> nat \<Rightarrow> Argument list \<Rightarrow> error option \<times> Argument list" where
  "bindPositionals vals idx [] = (None, [])"
| "bindPositionals vals idx (a # as) =
     (if m_type a = Positional \<and> idx < length vals then
        (case setValue a (vals ! idx) of
           Inl e \<Rightarrow> (Some e, a # as)
         | Inr a' \<Rightarrow> (case bindPositionals vals (idx + 1) as of (r, as') \<Rightarrow> (r, a' # as')))
      else (case bindPositionals vals idx as of (r, as') \<Rightarrow> (r, a # as')))"

definition missingName :: "Argument \<Rightarrow> string" where
  "missingName a =
     (if m_type a = Positional then m_name a
      else if m_longName a \<noteq> [] then ''--'' @ m_longName a else ''-'' @ m_shortName a)"

fun validateRequired_loop :: "Argument list \<Rightarrow> error option" where
  "validateRequired_loop [] = None"
| "validateRequired_loop (a # as) =
     (if m_isRequired a \<and> \<not> m_isSet a then Some (MissingArgumentError (missingName a))
      else validateRequired_loop as)"

definition validateRequiredArgument :: "ArgParser \<Rightarrow> error option" where
  "validateRequiredArgument p = validateRequired_loop (m_arguments p)"

definition parsePositionalOption :: "ArgParser \<Rightarrow> string list \<Rightarrow> outcome" where
  "parsePositionalOption p args =
     (case parsePositionalOption_loop p args of
        Returned p1 \<Rightarrow>
          (case bindPositionals (m_positionalValues p1) 0 (m_arguments p1) of
             (Some e, as) \<Rightarrow> Thrown e (p1\<lparr>m_arguments := as\<rparr>)
           | (None, as) \<Rightarrow>
               (case validateRequiredArgument (p1\<lparr>m_arguments := as\<rparr>) of
                  Some e \<Rightarrow> Thrown e (p1\<lparr>m_arguments := as\<rparr>)
                | None \<Rightarrow> Returned (p1\<lparr>m_arguments := as\<rparr>)))
      | Thrown e p1 \<Rightarrow> Thrown e p1
      | Exited c out p1 \<Rightarrow> Exited c out p1)"

text \<open>\<open>parseOptions(argc, argv)\<close>, with \<open>argv\<close> as the list of its \<open>argc\<close> strings.\<close>

definition parseOptions :: "ArgParser \<Rightarrow> string list \<Rightarrow> outcome" where
  "parseOptions p argv =
     parsePositionalOption
       (if m_programName p = [] \<and> argv \<noteq> [] then p\<lparr>m_programName := hd argv\<rparr> else p)
       (drop 1 argv)"

subsection \<open>Retrieval by name\<close>

definition ArgParser_get_string :: "ArgParser \<Rightarrow> string \<Rightarrow> string option" where
  "ArgParser_get_string p name =
     (case findArgument p name of None \<Rightarrow> None | Some arg \<Rightarrow> get_string (m_arguments p ! arg))"

definition ArgParser_get_int :: "ArgParser \<Rightarrow> string \<Rightarrow> int option" where
  "ArgParser_get_int p name =
     (case findArgument p name of None \<Rightarrow> None | Some arg \<Rightarrow> get_int (m_arguments p ! arg))"

definition ArgParser_get_bool :: "ArgParser \<Rightarrow> string \<Rightarrow> bool option" where
  "ArgParser_get_bool p name =
     (case findArgument p name of None \<Rightarrow> None | Some arg \<Rightarrow> get_bool (m_arguments p ! arg))"

definition ArgParser_getString :: "ArgParser \<Rightarrow> string \<Rightarrow> string" where
  "ArgParser_getString p name =
     (case findArgument p name of None \<Rightarrow> [] | Some arg \<Rightarrow> getString (m_arguments p ! arg))"

definition ArgParser_getInt :: "ArgParser \<Rightarrow> string \<Rightarrow> error + int" where
  "ArgParser_getInt p name =
     (case findArgument p name of
        None \<Rightarrow> Inl (ArgumentError (''Argument not found: '' @ name))
      | Some arg \<Rightarrow> getInt (m_arguments p ! arg))"

definition ArgParser_getBool :: "ArgParser \<Rightarrow> string \<Rightarrow> bool" where
  "ArgParser_getBool p name =
     (case findArgument p name of None \<Rightarrow> False | Some arg \<Rightarrow> m_isSet (m_arguments p ! arg))"

definition ArgParser_isSet :: "ArgParser \<Rightarrow> string \<Rightarrow> bool" where
  "ArgParser_isSet p name =
     (case findArgument p name of None \<Rightarrow> False | Some arg \<Rightarrow> m_isSet (m_arguments p ! arg))"

definition positionalArguments :: "ArgParser \<Rightarrow> string list" where
  "positionalArguments p = m_positionalValues p"

section \<open>Notions used to state the properties\<close>

text \<open>
  The exception that the loop body raises for the token \<open>arg\<close> when it meets it in
  state \<open>p\<close> with the tokens \<open>rest\<close> after it; \<open>None\<close> when the token is the help
  request, a positional value, or an option that is accepted.
\<close>

definition raisedAt :: "ArgParser \<Rightarrow> string \<Rightarrow> string list \<Rightarrow> error option" where
  "raisedAt p arg rest =
     (if arg = ''--help'' \<or> arg = ''-h'' then None
      else if starts_with arg ''--'' then
        (case parseLongOption p arg rest of Inl e \<Rightarrow> Some e | Inr r \<Rightarrow> None)
      else if starts_with arg ''-'' \<and> length arg > 1 then
        (case parseShortOption p arg rest of Inl e \<Rightarrow> Some e | Inr r \<Rightarrow> None)
      else None)"

text \<open>
  The positional tokens of a token sequence, by the classification of section 4.3 of the
  specification and not by the loop: a token that starts with \<open>--\<close> is a long option,
  a token of more than one character that starts with \<open>-\<close> is a short option, and a
  named Argument that is not a Flag, given without an inline or attached value, takes
  the next token as its value; every other token is positional. (The specification says
  this of an Option; the handlers treat a positional that is found by its name alike.)
\<close>

definition takesNextToken :: "ArgParser \<Rightarrow> string \<Rightarrow> bool" where
  "takesNextToken p t =
     (if starts_with t ''--'' then
        CHR ''='' \<notin> set t \<and>
        (case findArgument p (drop 2 t) of
           None \<Rightarrow> False | Some a \<Rightarrow> m_type (m_arguments p ! a) \<noteq> Flag)
      else
        length t = 2 \<and>
        (case findArgument p (take 1 (drop 1 t)) of
           None \<Rightarrow> False | Some a \<Rightarrow> m_type (m_arguments p ! a) \<noteq> Flag))"

fun positionalTokens :: "ArgParser \<Rightarrow> string list \<Rightarrow> string list" where
  "positionalTokens p [] = []"
| "positionalTokens p (t # ts) =
     (if starts_with t ''--'' \<or> (starts_with t ''-'' \<and> length t > 1) then
        (if takesNextToken p t then positionalTokens p (drop 1 ts)
         else positionalTokens p ts)
      else t # positionalTokens p ts)"

text \<open>
  Two parser states with the same registry: the same name map and the same kind of
  Argument behind every pointer.
\<close>

definition sameRegistry :: "ArgParser \<Rightarrow> ArgParser \<Rightarrow> bool" where
  "sameRegistry p p' =
     (m_argMap p' = m_argMap p \<and> length (m_arguments p') = length (m_arguments p) \<and>
      (\<forall>j. m_type (m_arguments p' ! j) = m_type (m_arguments p ! j)))"

definition isPositional :: "Argument \<Rightarrow> bool" where
  "isPositional a = (m_type a = Positional)"

text \<open>What a successful \<open>setValue\<close> writes.\<close>

definition bound :: "Argument \<Rightarrow> string \<Rightarrow> Argument" where
  "bound a v = a\<lparr>m_currentValue := v, m_isSet := True\<rparr>"

subsection \<open>Example parsers\<close>

text \<open>
  The parser of the basic example of README.md: the flag \<open>-v/--verbose\<close>, the option
  \<open>-o/--output\<close> with default \<open>output.txt\<close> and the required positional \<open>input\<close>.
\<close>

definition basic_example :: ArgParser where
  "basic_example =
     fst (addPositional
       (fst (addOption
         (fst (addFlag (ArgParser_new ''myapp'' ''A sample application'')
                ''v'' ''verbose'' ''Enable verbose output''))
         ''o'' ''output'' ''Output file'' ''output.txt''))
       ''input'' ''Input file'' True)"

text \<open>
  The parser of the advanced example of README.md: the flag \<open>-d/--debug\<close>, the option \<open>-p/--port\<close>
  with default \<open>8080\<close> and the range validator, the required option \<open>-c/--config\<close> and
  the optional positional \<open>files\<close>.
\<close>

definition port_validator :: "string \<Rightarrow> bool" where
  "port_validator v = (case stoi v of None \<Rightarrow> False | Some port \<Rightarrow> port > 0 \<and> port < 65536)"

definition advanced_example :: ArgParser where
  "advanced_example =
     (let p0 = (ArgParser_new [] [])\<lparr>m_programName := ''advanced-app'',
                 m_parserDescription := ''An advanced example application'',
                 m_version := ''1.0.0''\<rparr>;
          p1 = fst (addFlag p0 ''d'' ''debug'' ''Enable debug mode'');
          p2 = fst (addOption p1 ''p'' ''port'' ''Server port'' ''8080'');
          p3 = through p2 1 (validator port_validator);
          p4 = fst (addOption p3 ''c'' ''config'' ''Configuration file'' []);
          p5 = through p4 2 (required True)
      in fst (addPositional p5 ''files'' ''Input files'' False))"

text \<open>A parser whose only Argument is an option \<open>-h/--host\<close>.\<close>

definition host_example :: ArgParser where
  "host_example = fst (addOption (ArgParser_new ''client'' []) ''h'' ''host'' ''Server host'' [])"

text \<open>
  A parser with the flag \<open>-v/--verbose\<close>, the option \<open>-o/--log\<close> and the three
  optional positionals \<open>input\<close>, \<open>output\<close> and \<open>extra\<close>.
\<close>

definition copy_example :: ArgParser where
  "copy_example =
     (let p1 = fst (addFlag (ArgParser_new ''copy'' []) ''v'' ''verbose'' ''Verbose'');
          p2 = fst (addOption p1 ''o'' ''log'' ''Log file'' []);
          p3 = fst (addPositional p2 ''input'' ''Input file'' False);
          p4 = fst (addPositional p3 ''output'' ''Output file'' False)
      in fst (addPositional p4 ''extra'' ''Extra file'' False))"

text \<open>
  A parser with three required Arguments: an option with the short name \<open>k\<close> only, the
  positional \<open>src\<close>, and an option with the long name \<open>mode\<close> only.
\<close>

definition required_example :: ArgParser where
  "required_example =
     (let p1 = through (fst (addOption (ArgParser_new ''req'' []) ''k'' [] ''Key'' [])) 0 (required True);
          p2 = fst (addPositional p1 ''src'' ''Source'' True)
      in through (fst (addOption p2 [] ''mode'' ''Mode'' [])) 2 (required True))"

text \<open>A parser whose only Argument is a flag with the short name \<open>-\<close>.\<close>

definition dash_example :: ArgParser where
  "dash_example = fst (addFlag (ArgParser_new ''tool'' []) ''-'' ''dash'' ''A flag'')"

section \<open>Facts about the token pass\<close>

lemmas parser_eval =
  addFlag_def addOption_def addPositional_def ArgParser_new_def through_def Let_def
  Argument_flag_def Argument_option_def Argument_positional_def required_def validator_def
  starts_with_def parseLongOption_def parseShortOption_def findArgument_def substr_def
  substr_from_def store_def setFlag_def setValue_def

lemmas stoi_eval = stoi_def isspace_def isdigit_def digits_value_def port_validator_def

text \<open>
  An option handler that succeeds looks at no token beyond the ones it consumes, so a
  pass that returns on a prefix of the tokens goes on with the rest from the state it
  reached.
\<close>

lemma parseLongOption_append:
  "parseLongOption p arg pre = Inr (p', r') \<Longrightarrow> parseLongOption p arg (pre @ rest) = Inr (p', r' @ rest)"
  by (auto simp: parseLongOption_def Let_def split: option.splits if_splits sum.splits list.splits)

lemma parseShortOption_append:
  "parseShortOption p arg pre = Inr (p', r') \<Longrightarrow> parseShortOption p arg (pre @ rest) = Inr (p', r' @ rest)"
  by (auto simp: parseShortOption_def Let_def split: option.splits if_splits sum.splits list.splits)

lemma loop_append:
  "parsePositionalOption_loop p pre = Returned p1 \<Longrightarrow>
   parsePositionalOption_loop p (pre @ rest) = parsePositionalOption_loop p1 rest"
proof (induction p pre rule: parsePositionalOption_loop.induct)
  case (1 p)
  then show ?case by simp
next
  case (2 p arg pre)
  show ?case
  proof (cases "arg = ''--help'' \<or> arg = ''-h''")
    case True
    with "2.prems" show ?thesis by simp
  next
    case nh: False
    show ?thesis
    proof (cases "starts_with arg ''--''")
      case True
      with nh "2.prems" obtain p' r' where L: "parseLongOption p arg pre = Inr (p', r')"
        and R: "parsePositionalOption_loop p' r' = Returned p1"
        by (auto split: sum.splits)
      from "2.IH"(1)[OF nh True L refl R] parseLongOption_append[OF L, of rest] nh True
      show ?thesis by simp
    next
      case nl: False
      show ?thesis
      proof (cases "starts_with arg ''-'' \<and> length arg > 1")
        case True
        with nh nl "2.prems" obtain p' r' where L: "parseShortOption p arg pre = Inr (p', r')"
          and R: "parsePositionalOption_loop p' r' = Returned p1"
          by (auto split: sum.splits)
        from "2.IH"(2)[OF nh nl True L refl R] parseShortOption_append[OF L, of rest] nh nl True
        show ?thesis by simp
      next
        case np: False
        from nh nl np "2.prems"
        have R: "parsePositionalOption_loop (p\<lparr>m_positionalValues := m_positionalValues p @ [arg]\<rparr>) pre = Returned p1"
          by (simp split: if_splits)
        from "2.IH"(3)[OF nh nl np R] nh nl np show ?thesis by auto
      qed
    qed
  qed
qed

lemma loop_raisedAt:
  "raisedAt p tok rest = Some e \<Longrightarrow> parsePositionalOption_loop p (tok # rest) = Thrown e p"
  by (auto simp: raisedAt_def split: if_splits sum.splits)

lemma raisedAt_kind:
  "raisedAt p tok rest = Some e \<Longrightarrow>
   (\<exists>m. e = UnknownArgumentError m \<or> e = ParseError m \<or> e = ValidationError m)"
  by (auto simp: raisedAt_def parseLongOption_def parseShortOption_def setValue_def setFlag_def Let_def
           split: if_splits sum.splits option.splits list.splits)

lemma parseLongOption_consumed:
  "parseLongOption p arg rest = Inr (p1, r1) \<Longrightarrow>
   \<exists>consumed. rest = consumed @ r1 \<and> (\<forall>ys. parseLongOption p arg (consumed @ ys) = Inr (p1, ys))"
proof -
  assume A: "parseLongOption p arg rest = Inr (p1, r1)"
  then have "r1 = rest \<or> (\<exists>v. rest = v # r1)"
    by (auto simp: parseLongOption_def Let_def split: option.splits if_splits sum.splits list.splits)
  then show ?thesis
  proof
    assume "r1 = rest"
    with A have "rest = [] @ r1 \<and> (\<forall>ys. parseLongOption p arg ([] @ ys) = Inr (p1, ys))"
      by (auto simp: parseLongOption_def Let_def split: option.splits if_splits sum.splits list.splits)
    then show ?thesis by blast
  next
    assume "\<exists>v. rest = v # r1"
    then obtain v where v: "rest = v # r1" by blast
    with A have "rest = [v] @ r1 \<and> (\<forall>ys. parseLongOption p arg ([v] @ ys) = Inr (p1, ys))"
      by (auto simp: parseLongOption_def Let_def split: option.splits if_splits sum.splits list.splits)
    then show ?thesis by blast
  qed
qed

lemma parseShortOption_consumed:
  "parseShortOption p arg rest = Inr (p1, r1) \<Longrightarrow>
   \<exists>consumed. rest = consumed @ r1 \<and> (\<forall>ys. parseShortOption p arg (consumed @ ys) = Inr (p1, ys))"
proof -
  assume A: "parseShortOption p arg rest = Inr (p1, r1)"
  then have "r1 = rest \<or> (\<exists>v. rest = v # r1)"
    by (auto simp: parseShortOption_def Let_def split: option.splits if_splits sum.splits list.splits)
  then show ?thesis
  proof
    assume "r1 = rest"
    with A have "rest = [] @ r1 \<and> (\<forall>ys. parseShortOption p arg ([] @ ys) = Inr (p1, ys))"
      by (auto simp: parseShortOption_def Let_def split: option.splits if_splits sum.splits list.splits)
    then show ?thesis by blast
  next
    assume "\<exists>v. rest = v # r1"
    then obtain v where v: "rest = v # r1" by blast
    with A have "rest = [v] @ r1 \<and> (\<forall>ys. parseShortOption p arg ([v] @ ys) = Inr (p1, ys))"
      by (auto simp: parseShortOption_def Let_def split: option.splits if_splits sum.splits list.splits)
    then show ?thesis by blast
  qed
qed

lemma loop_Thrown_decompose:
  "parsePositionalOption_loop p args = Thrown e p' \<Longrightarrow>
   \<exists>pre tok rest. args = pre @ tok # rest \<and> parsePositionalOption_loop p pre = Returned p' \<and>
      raisedAt p' tok rest = Some e"
proof (induction p args rule: parsePositionalOption_loop.induct)
  case (1 p)
  then show ?case by simp
next
  case (2 p arg rest)
  show ?case
  proof (cases "raisedAt p arg rest")
    case (Some e')
    from loop_raisedAt[OF Some] "2.prems" have "e' = e" "p' = p" by simp_all
    with Some have "arg # rest = [] @ arg # rest \<and> parsePositionalOption_loop p [] = Returned p' \<and>
      raisedAt p' arg rest = Some e" by simp
    then show ?thesis by blast
  next
    case None
    show ?thesis
    proof (cases "arg = ''--help'' \<or> arg = ''-h''")
      case True
      with "2.prems" show ?thesis by simp
    next
      case nh: False
      show ?thesis
      proof (cases "starts_with arg ''--''")
        case True
        with nh None obtain p1 r1 where L: "parseLongOption p arg rest = Inr (p1, r1)"
          by (auto simp: raisedAt_def split: sum.splits)
        with nh True "2.prems" have T: "parsePositionalOption_loop p1 r1 = Thrown e p'" by simp
        from "2.IH"(1)[OF nh True L refl T] obtain pre tok rest' where
          D: "r1 = pre @ tok # rest'" "parsePositionalOption_loop p1 pre = Returned p'"
             "raisedAt p' tok rest' = Some e" by blast
        from parseLongOption_consumed[OF L] obtain consumed where
          C: "rest = consumed @ r1" "\<And>ys. parseLongOption p arg (consumed @ ys) = Inr (p1, ys)" by blast
        have "parsePositionalOption_loop p (arg # consumed @ pre) = Returned p'"
          using nh True C(2)[of pre] D(2) by simp
        moreover have "arg # rest = (arg # consumed @ pre) @ tok # rest'"
          using C(1) D(1) by simp
        ultimately show ?thesis using D(3) by blast
      next
        case nl: False
        show ?thesis
        proof (cases "starts_with arg ''-'' \<and> length arg > 1")
          case True
          with nh nl None obtain p1 r1 where L: "parseShortOption p arg rest = Inr (p1, r1)"
            by (auto simp: raisedAt_def split: sum.splits)
          with nh nl True "2.prems" have T: "parsePositionalOption_loop p1 r1 = Thrown e p'" by simp
          from "2.IH"(2)[OF nh nl True L refl T] obtain pre tok rest' where
            D: "r1 = pre @ tok # rest'" "parsePositionalOption_loop p1 pre = Returned p'"
               "raisedAt p' tok rest' = Some e" by blast
          from parseShortOption_consumed[OF L] obtain consumed where
            C: "rest = consumed @ r1" "\<And>ys. parseShortOption p arg (consumed @ ys) = Inr (p1, ys)" by blast
          have "parsePositionalOption_loop p (arg # consumed @ pre) = Returned p'"
            using nh nl True C(2)[of pre] D(2) by simp
          moreover have "arg # rest = (arg # consumed @ pre) @ tok # rest'"
            using C(1) D(1) by simp
          ultimately show ?thesis using D(3) by blast
        next
          case np: False
          with nh nl "2.prems"
          have T: "parsePositionalOption_loop (p\<lparr>m_positionalValues := m_positionalValues p @ [arg]\<rparr>) rest = Thrown e p'"
            by (simp split: if_splits)
          from "2.IH"(3)[OF nh nl np T] obtain pre tok rest' where
            D: "rest = pre @ tok # rest'"
               "parsePositionalOption_loop (p\<lparr>m_positionalValues := m_positionalValues p @ [arg]\<rparr>) pre = Returned p'"
               "raisedAt p' tok rest' = Some e" by blast
          have "parsePositionalOption_loop p (arg # pre) = Returned p'"
            using nh nl np D(2) by auto
          moreover have "arg # rest = (arg # pre) @ tok # rest'" using D(1) by simp
          ultimately show ?thesis using D(3) by blast
        qed
      qed
    qed
  qed
qed

text \<open>
  The pass never changes the registry: the name map, the number of Arguments and the
  kind of each Argument stay as declared.
\<close>

lemma find_char_None: "find_char s c = None \<longleftrightarrow> c \<notin> set s"
  by (induction s) auto

lemma find_char_append: "c \<notin> set xs \<Longrightarrow> find_char (xs @ c # ys) c = Some (length xs)"
  by (induction xs) auto

lemma store_type:
  "m_type a = m_type (m_arguments p ! i) \<Longrightarrow>
   m_type (m_arguments (store p i a) ! j) = m_type (m_arguments p ! j)"
  by (cases "i < length (m_arguments p)") (auto simp: store_def nth_list_update list_update_beyond)

lemma setValue_type: "setValue a v = Inr a' \<Longrightarrow> m_type a' = m_type a"
  by (auto simp: setValue_def split: if_splits option.splits)

lemma setFlag_type: "setFlag a v = Inr a' \<Longrightarrow> m_type a' = m_type a"
  by (auto simp: setFlag_def split: if_splits)

lemma sameRegistry_refl: "sameRegistry p p"
  by (simp add: sameRegistry_def)

lemma sameRegistry_trans: "sameRegistry p p' \<Longrightarrow> sameRegistry p' p'' \<Longrightarrow> sameRegistry p p''"
  by (simp add: sameRegistry_def)

lemma sameRegistry_store:
  "m_type a = m_type (m_arguments p ! i) \<Longrightarrow> sameRegistry p (store p i a)"
  using store_type[of a p i] by (simp add: sameRegistry_def) (simp add: store_def)

lemma store_positionalValues: "m_positionalValues (store p i a) = m_positionalValues p"
  by (simp add: store_def)

lemma parseLongOption_state:
  assumes "parseLongOption p arg rest = Inr (p', r')"
  shows "sameRegistry p p' \<and> m_positionalValues p' = m_positionalValues p"
  using assms
  by (auto simp: parseLongOption_def Let_def store_positionalValues
           intro!: sameRegistry_store dest!: setValue_type setFlag_type
           split: option.splits if_splits sum.splits list.splits)

lemma parseShortOption_state:
  assumes "parseShortOption p arg rest = Inr (p', r')"
  shows "sameRegistry p p' \<and> m_positionalValues p' = m_positionalValues p"
  using assms
  by (auto simp: parseShortOption_def Let_def store_positionalValues
           intro!: sameRegistry_store dest!: setValue_type setFlag_type
           split: option.splits if_splits sum.splits list.splits)

lemma loop_sameRegistry: "sameRegistry p (final (parsePositionalOption_loop p args))"
proof (induction p args rule: parsePositionalOption_loop.induct)
  case (1 p)
  show ?case by (simp add: sameRegistry_refl)
next
  case (2 p arg rest)
  show ?case
  proof (cases "arg = ''--help'' \<or> arg = ''-h''")
    case True
    then show ?thesis by (auto simp: sameRegistry_refl)
  next
    case nh: False
    show ?thesis
    proof (cases "starts_with arg ''--''")
      case True
      show ?thesis
      proof (cases "parseLongOption p arg rest")
        case (Inl e)
        with nh True show ?thesis by (simp add: sameRegistry_refl)
      next
        case (Inr pr)
        obtain p' r' where pr: "pr = (p', r')" by (cases pr)
        from "2.IH"(1)[OF nh True Inr[unfolded pr] refl] parseLongOption_state[OF Inr[unfolded pr]]
        have "sameRegistry p (final (parsePositionalOption_loop p' r'))"
          by (blast intro: sameRegistry_trans)
        with nh True Inr pr show ?thesis by simp
      qed
    next
      case nl: False
      show ?thesis
      proof (cases "starts_with arg ''-'' \<and> length arg > 1")
        case True
        show ?thesis
        proof (cases "parseShortOption p arg rest")
          case (Inl e)
          with nh nl True show ?thesis by (simp add: sameRegistry_refl)
        next
          case (Inr pr)
          obtain p' r' where pr: "pr = (p', r')" by (cases pr)
          from "2.IH"(2)[OF nh nl True Inr[unfolded pr] refl] parseShortOption_state[OF Inr[unfolded pr]]
          have "sameRegistry p (final (parsePositionalOption_loop p' r'))"
            by (blast intro: sameRegistry_trans)
          with nh nl True Inr pr show ?thesis by simp
        qed
      next
        case np: False
        have "sameRegistry p (p\<lparr>m_positionalValues := m_positionalValues p @ [arg]\<rparr>)"
          by (simp add: sameRegistry_def)
        with "2.IH"(3)[OF nh nl np] have
          "sameRegistry p (final (parsePositionalOption_loop (p\<lparr>m_positionalValues := m_positionalValues p @ [arg]\<rparr>) rest))"
          by (blast intro: sameRegistry_trans)
        with nh nl np show ?thesis by auto
      qed
    qed
  qed
qed

lemma loop_argMap:
  "parsePositionalOption_loop p args = Returned p1 \<Longrightarrow> findArgument p1 name = findArgument p name"
  using loop_sameRegistry[of p args] by (simp add: sameRegistry_def findArgument_def)

section \<open>The help request\<close>

text \<open>
  Claim C1, as amended. The claim says that a token \<open>-h\<close> or \<open>--help\<close> anywhere in
  the sequence makes the parse print the help and exit with status 0. The loop tests
  for help only on the token under the cursor: an earlier token that raises an error
  ends the parse first, and a help token taken as the value of an option is never
  tested. What holds: when the tokens before it are processed without error and leave
  the cursor on a token \<open>-h\<close> or \<open>--help\<close>, the parse writes the help text of the
  state reached, followed by a newline, and exits with status 0; the tokens after it,
  the positional binding and the required-argument check are all skipped, so no error
  is raised for them.
\<close>

theorem help_when_reached:
  assumes "parsePositionalOption_loop p pre = Returned p1" and "tok = ''--help'' \<or> tok = ''-h''"
  shows "parsePositionalOption p (pre @ tok # rest) = Exited 0 (help_text p1 @ [newline]) p1"
  using loop_append[OF assms(1), of "tok # rest"] assms(2)
  by (auto simp add: parsePositionalOption_def)

text \<open>
  In the basic example, \<open>--verbose -h --bogus\<close> exits with the help although the
  required positional is missing and an unknown option follows.
\<close>

theorem help_when_reached_witness:
  "parsePositionalOption_loop basic_example [''--verbose''] =
     Returned (store basic_example 0 ((m_arguments basic_example ! 0)\<lparr>m_isSet := True\<rparr>)) \<and>
   parsePositionalOption basic_example ([''--verbose''] @ ''-h'' # [''--bogus'']) =
     Exited 0 (help_text (store basic_example 0 ((m_arguments basic_example ! 0)\<lparr>m_isSet := True\<rparr>)) @ [newline])
       (store basic_example 0 ((m_arguments basic_example ! 0)\<lparr>m_isSet := True\<rparr>))"
proof -
  have h: "parsePositionalOption_loop basic_example [''--verbose''] =
     Returned (store basic_example 0 ((m_arguments basic_example ! 0)\<lparr>m_isSet := True\<rparr>))"
    by (simp add: basic_example_def parser_eval)
  from help_when_reached[OF h, of "''-h''" "[''--bogus'']"] h show ?thesis by simp
qed

text \<open>
  The claim as stated fails: \<open>--bogus --help\<close> contains \<open>--help\<close>, and the parse
  throws UnknownArgumentError for \<open>--bogus\<close> without printing anything; in
  \<open>in -o --help\<close> the help token is the value of \<open>-o\<close> and the parse returns.
\<close>

theorem help_anywhere_counterexample:
  "''--help'' \<in> set [''--bogus'', ''--help''] \<and>
   parsePositionalOption basic_example [''--bogus'', ''--help''] =
     Thrown (UnknownArgumentError ''--bogus'') basic_example \<and>
   ''--help'' \<in> set [''in'', ''-o'', ''--help''] \<and>
   is_Returned (parsePositionalOption basic_example [''in'', ''-o'', ''--help'']) \<and>
   ArgParser_getString (final (parsePositionalOption basic_example [''in'', ''-o'', ''--help''])) ''output'' =
     ''--help''"
  by (simp add: basic_example_def parser_eval parsePositionalOption_def validateRequiredArgument_def
        missingName_def ArgParser_getString_def getString_def get_string_def activeValue_def)

section \<open>No rollback\<close>

text \<open>
  Claim C7. When the tokens \<open>pre\<close> before the failing token have been processed and
  left the state \<open>p1\<close>, and the next token raises \<open>e\<close> there, the parse throws \<open>e\<close>
  and the state that the caller can inspect is exactly \<open>p1\<close>: every Argument set by an
  earlier token is still set and holds the value stored then. The exception is an
  UnknownArgumentError, a ParseError or a ValidationError. By
  \<open>loop_Thrown_decompose\<close> every exception of the token pass arises in this way.
\<close>

theorem no_rollback_on_failure:
  assumes "parsePositionalOption_loop p pre = Returned p1" and "raisedAt p1 tok rest = Some e"
  shows "parsePositionalOption p (pre @ tok # rest) = Thrown e p1 \<and>
         (\<exists>m. e = UnknownArgumentError m \<or> e = ParseError m \<or> e = ValidationError m)"
  using loop_append[OF assms(1), of "tok # rest"] loop_raisedAt[OF assms(2)] raisedAt_kind[OF assms(2)]
  by (simp add: parsePositionalOption_def)

text \<open>
  In the advanced example, \<open>--debug -p 9000 --port=70000 x\<close> fails at the fourth
  token, whose value the validator rejects; \<open>debug\<close> is still set and \<open>port\<close> still
  holds \<open>9000\<close>.
\<close>

theorem no_rollback_on_failure_witness:
  "ArgParser_isSet (final (parsePositionalOption advanced_example ([''--debug'', ''-p'', ''9000''] @ ''--port=70000'' # [''x'']))) ''debug'' \<and>
   ArgParser_getString (final (parsePositionalOption advanced_example ([''--debug'', ''-p'', ''9000''] @ ''--port=70000'' # [''x'']))) ''port'' = ''9000'' \<and>
   raised (parsePositionalOption advanced_example ([''--debug'', ''-p'', ''9000''] @ ''--port=70000'' # [''x''])) = ValidationError ''Invalid value for argument:70000''"
proof -
  let ?p1 = "store (store advanced_example 0 ((m_arguments advanced_example ! 0)\<lparr>m_isSet := True\<rparr>)) 1
               (bound (m_arguments advanced_example ! 1) ''9000'')"
  have h: "parsePositionalOption_loop advanced_example [''--debug'', ''-p'', ''9000''] = Returned ?p1"
    by (simp add: advanced_example_def parser_eval stoi_eval bound_def)
  have r: "raisedAt ?p1 ''--port=70000'' [''x''] = Some (ValidationError ''Invalid value for argument:70000'')"
    by (simp add: advanced_example_def parser_eval stoi_eval bound_def raisedAt_def)
  from no_rollback_on_failure[OF h r] show ?thesis
    by (simp add: advanced_example_def parser_eval bound_def ArgParser_isSet_def ArgParser_getString_def getString_def get_string_def activeValue_def)
qed

section \<open>The token \<open>--\<close>\<close>

text \<open>
  Claim C10. The bare token \<open>--\<close> starts with \<open>--\<close>, so it goes to the long-option
  path, where its long name is empty. When no Argument is registered under the empty
  name and the cursor reaches the token, the parse throws UnknownArgumentError with the
  raw token \<open>--\<close>; the tokens after it are not read, as positional values or otherwise.
\<close>

theorem bare_double_dash_unknown:
  assumes "findArgument p [] = None" and "parsePositionalOption_loop p pre = Returned p1"
  shows "starts_with ''--'' ''--'' \<and>
         parseLongOption p1 ''--'' rest = Inl (UnknownArgumentError ''--'') \<and>
         parsePositionalOption p (pre @ ''--'' # rest) = Thrown (UnknownArgumentError ''--'') p1"
proof -
  from assms loop_argMap[OF assms(2), of "[]"] have n: "findArgument p1 [] = None" by simp
  then have L: "parseLongOption p1 ''--'' rest = Inl (UnknownArgumentError ''--'')"
    by (simp add: parseLongOption_def substr_from_def)
  then have "parsePositionalOption_loop p1 (''--'' # rest) = Thrown (UnknownArgumentError ''--'') p1"
    by (simp add: starts_with_def)
  with loop_append[OF assms(2), of "''--'' # rest"] L show ?thesis
    by (simp add: parsePositionalOption_def starts_with_def)
qed

text \<open>In the basic example, \<open>a.txt -v -- b.txt\<close> fails at \<open>--\<close>.\<close>

theorem bare_double_dash_unknown_witness:
  "findArgument basic_example [] = None \<and>
   parsePositionalOption basic_example ([''a.txt'', ''-v''] @ ''--'' # [''b.txt'']) =
     Thrown (UnknownArgumentError ''--'')
       (store (basic_example\<lparr>m_positionalValues := [''a.txt'']\<rparr>) 0 ((m_arguments basic_example ! 0)\<lparr>m_isSet := True\<rparr>))"
proof -
  have f: "findArgument basic_example [] = None" by (simp add: basic_example_def parser_eval)
  have h: "parsePositionalOption_loop basic_example [''a.txt'', ''-v''] =
      Returned (store (basic_example\<lparr>m_positionalValues := [''a.txt'']\<rparr>) 0 ((m_arguments basic_example ! 0)\<lparr>m_isSet := True\<rparr>))"
    by (simp add: basic_example_def parser_eval)
  from bare_double_dash_unknown[OF f h, of "[''b.txt'']"] f show ?thesis by simp
qed

section \<open>A short flag with trailing characters\<close>

text \<open>
  Claim C9, as amended. For a Flag registered under the one-character name \<open>c\<close> and a
  non-empty \<open>suffix\<close>, \<open>parseShortOption\<close> on the token \<open>-c<suffix>\<close> raises no
  error, sets the flag and nothing else (no value is stored), and advances by one token:
  the suffix is dropped. When \<open>c\<close> is not itself a dash, the loop sends the token to
  \<open>parseShortOption\<close> and then goes on with the next token from that state, so the
  suffix set no further flag and added no positional value. The claim has this for every
  short name; for the short name \<open>-\<close> the token starts with \<open>--\<close> and the loop
  treats it as a long option.
\<close>

theorem short_flag_suffix_discarded:
  assumes "findArgument p [c] = Some i" and "m_type (m_arguments p ! i) = Flag" and "suffix \<noteq> []"
  shows "parseShortOption p (CHR ''-'' # c # suffix) rest =
           Inr (store p i ((m_arguments p ! i)\<lparr>m_isSet := True\<rparr>), rest) \<and>
         (c \<noteq> CHR ''-'' \<longrightarrow>
            parsePositionalOption_loop p ((CHR ''-'' # c # suffix) # rest) =
            parsePositionalOption_loop (store p i ((m_arguments p ! i)\<lparr>m_isSet := True\<rparr>)) rest)"
proof -
  have S: "parseShortOption p (CHR ''-'' # c # suffix) rest =
           Inr (store p i ((m_arguments p ! i)\<lparr>m_isSet := True\<rparr>), rest)"
    using assms by (simp add: parseShortOption_def substr_def setFlag_def)
  moreover have "CHR ''-'' # c # suffix \<noteq> ''-h''" "CHR ''-'' # c # suffix \<noteq> ''--help''"
    if "c \<noteq> CHR ''-''" using assms(3) that by auto
  ultimately show ?thesis by (auto simp: starts_with_def)
qed


text \<open>In the basic example, \<open>-vxyz in.txt\<close> sets \<open>verbose\<close> and binds \<open>in.txt\<close>.\<close>

theorem short_flag_suffix_discarded_witness:
  "parsePositionalOption basic_example [''-vxyz'', ''in.txt''] =
     Returned (store (store basic_example 0 ((m_arguments basic_example ! 0)\<lparr>m_isSet := True\<rparr>)
                        \<lparr>m_positionalValues := [''in.txt'']\<rparr>) 2
                 (bound (m_arguments basic_example ! 2) ''in.txt'')) \<and>
   m_currentValue (m_arguments (final (parsePositionalOption basic_example [''-vxyz'', ''in.txt''])) ! 0) = [] \<and>
   ArgParser_isSet (final (parsePositionalOption basic_example [''-vxyz'', ''in.txt''])) ''v'' \<and>
   positionalArguments (final (parsePositionalOption basic_example [''-vxyz'', ''in.txt''])) = [''in.txt'']"
proof -
  have f: "findArgument basic_example [CHR ''v''] = Some 0"
    by (simp add: basic_example_def parser_eval)
  have t: "m_type (m_arguments basic_example ! 0) = Flag"
    by (simp add: basic_example_def parser_eval)
  have s: "''xyz'' \<noteq> []" by simp
  from short_flag_suffix_discarded[OF f t s, of "[''in.txt'']"]
  have "parsePositionalOption_loop basic_example [''-vxyz'', ''in.txt''] =
        parsePositionalOption_loop (store basic_example 0 ((m_arguments basic_example ! 0)\<lparr>m_isSet := True\<rparr>)) [''in.txt'']"
    by simp
  then show ?thesis
    by (simp add: parsePositionalOption_def validateRequiredArgument_def missingName_def
          basic_example_def parser_eval bound_def ArgParser_isSet_def positionalArguments_def)
qed

text \<open>
  The claim as stated fails for a Flag registered under the short name \<open>-\<close>: the
  token \<open>--xyz\<close> is that dash, the short name and the suffix \<open>xyz\<close>, and the parse
  throws UnknownArgumentError with the flag left unset.
\<close>

theorem short_flag_dash_counterexample:
  "findArgument dash_example ''-'' = Some 0 \<and> m_type (m_arguments dash_example ! 0) = Flag \<and>
   ''xyz'' \<noteq> [] \<and> \<not> m_isSet (m_arguments dash_example ! 0) \<and>
   parsePositionalOption dash_example [CHR ''-'' # CHR ''-'' # ''xyz''] =
     Thrown (UnknownArgumentError ''--xyz'') dash_example"
  by (simp add: dash_example_def parser_eval parsePositionalOption_def find_char_None)

section \<open>Inline and separate option values\<close>

lemma setValue_validate:
  "m_type a \<noteq> Flag \<Longrightarrow> validate a v \<Longrightarrow> setValue a v = Inr (bound a v)"
  by (auto simp: setValue_def validate_def bound_def split: option.splits)

lemma parseLongOption_inline:
  assumes "findArgument p n = Some i" and "m_type (m_arguments p ! i) \<noteq> Flag" and "CHR ''='' \<notin> set n"
  shows "parseLongOption p (''--'' @ n @ ''='' @ v) rest =
         (case setValue (m_arguments p ! i) v of Inl e \<Rightarrow> Inl e | Inr a \<Rightarrow> Inr (store p i a, rest))"
proof -
  have "find_char ((''--'' @ n) @ CHR ''='' # v) CHR ''='' = Some (length (''--'' @ n))"
    using assms(3) by (intro find_char_append) simp
  then have "find_char (''--'' @ n @ ''='' @ v) CHR ''='' = Some (2 + length n)" by simp
  with assms(1,2) show ?thesis
    by (simp add: parseLongOption_def substr_def substr_from_def)
qed

lemma parseLongOption_spaced:
  assumes "findArgument p n = Some i" and "m_type (m_arguments p ! i) \<noteq> Flag" and "CHR ''='' \<notin> set n"
  shows "parseLongOption p (''--'' @ n) (v # rest) =
         (case setValue (m_arguments p ! i) v of Inl e \<Rightarrow> Inl e | Inr a \<Rightarrow> Inr (store p i a, rest))"
proof -
  have "find_char (''--'' @ n) CHR ''='' = None"
    using assms(3) by (simp add: find_char_None)
  with assms(1,2) show ?thesis
    by (simp add: parseLongOption_def substr_def substr_from_def)
qed

lemma parseShortOption_attached:
  assumes "findArgument p [c] = Some i" and "m_type (m_arguments p ! i) \<noteq> Flag" and "v \<noteq> []"
  shows "parseShortOption p (CHR ''-'' # c # v) rest =
         (case setValue (m_arguments p ! i) v of Inl e \<Rightarrow> Inl e | Inr a \<Rightarrow> Inr (store p i a, rest))"
  using assms by (simp add: parseShortOption_def substr_def substr_from_def)

lemma parseShortOption_spaced:
  assumes "findArgument p [c] = Some i" and "m_type (m_arguments p ! i) \<noteq> Flag"
  shows "parseShortOption p [CHR ''-'', c] (v # rest) =
         (case setValue (m_arguments p ! i) v of Inl e \<Rightarrow> Inl e | Inr a \<Rightarrow> Inr (store p i a, rest))"
  using assms by (simp add: parseShortOption_def substr_def substr_from_def)

lemma parsePositionalOption_cong:
  "parsePositionalOption_loop p xs = parsePositionalOption_loop p ys \<Longrightarrow>
   parsePositionalOption p xs = parsePositionalOption p ys"
  by (simp add: parsePositionalOption_def)

text \<open>
  Claim C4, as amended. The claim gives the equivalence for every registered Option. It
  holds for an Option reached by a long name \<open>n\<close> that contains no \<open>=\<close> and is not
  \<open>help\<close>: the token \<open>--n=v\<close> and the two tokens \<open>--n v\<close> give the same outcome of
  the whole parse, and when the validator accepts \<open>v\<close> both store \<open>v\<close> in that Option.
  It holds for an Option reached by a short name \<open>c\<close> other than \<open>h\<close> and \<open>-\<close> and a
  non-empty value \<open>w\<close>: the token \<open>-cw\<close> and the two tokens \<open>-c w\<close> give the same
  outcome. The names \<open>output\<close> and \<open>p\<close> of the claim meet these conditions. The
  tokens \<open>--help\<close> and \<open>-h\<close> are the help request before they are options, so for an
  Option named \<open>help\<close> or \<open>h\<close> the separate form prints the help instead.
\<close>

theorem inline_value_forms:
  "(findArgument p n = Some i \<and> m_type (m_arguments p ! i) = Option \<and>
    CHR ''='' \<notin> set n \<and> n \<noteq> ''help'' \<longrightarrow>
      parsePositionalOption p ((''--'' @ n @ ''='' @ v) # rest) =
      parsePositionalOption p ((''--'' @ n) # v # rest) \<and>
      (validate (m_arguments p ! i) v \<longrightarrow>
         parsePositionalOption_loop p ((''--'' @ n @ ''='' @ v) # rest) =
         parsePositionalOption_loop (store p i (bound (m_arguments p ! i) v)) rest)) \<and>
   (findArgument p [c] = Some j \<and> m_type (m_arguments p ! j) = Option \<and>
    c \<noteq> CHR ''h'' \<and> c \<noteq> CHR ''-'' \<and> w \<noteq> [] \<longrightarrow>
      parsePositionalOption p ((CHR ''-'' # c # w) # rest) =
      parsePositionalOption p ([CHR ''-'', c] # w # rest) \<and>
      (validate (m_arguments p ! j) w \<longrightarrow>
         parsePositionalOption_loop p ((CHR ''-'' # c # w) # rest) =
         parsePositionalOption_loop (store p j (bound (m_arguments p ! j) w)) rest))"
proof (intro conjI impI)
  assume A: "findArgument p n = Some i \<and> m_type (m_arguments p ! i) = Option \<and>
    CHR ''='' \<notin> set n \<and> n \<noteq> ''help''"
  then have f: "findArgument p n = Some i" and t: "m_type (m_arguments p ! i) \<noteq> Flag"
    and e: "CHR ''='' \<notin> set n" and h: "n \<noteq> ''help''" by simp_all
  have nh: "n @ CHR ''='' # v \<noteq> ''help''"
  proof
    assume "n @ CHR ''='' # v = ''help''"
    then have "set (n @ CHR ''='' # v) = set ''help''" by (rule arg_cong)
    then have "CHR ''='' \<in> set ''help''" by (metis in_set_conv_decomp)
    then show False by simp
  qed
  have I: "parsePositionalOption_loop p ((''--'' @ n @ ''='' @ v) # rest) =
        (case setValue (m_arguments p ! i) v of Inl e \<Rightarrow> Thrown e p
         | Inr a \<Rightarrow> parsePositionalOption_loop (store p i a) rest)"
    using parseLongOption_inline[OF f t e, of v rest] nh
    by (simp add: starts_with_def split: sum.splits)
  have S: "parsePositionalOption_loop p ((''--'' @ n) # v # rest) =
        (case setValue (m_arguments p ! i) v of Inl e \<Rightarrow> Thrown e p
         | Inr a \<Rightarrow> parsePositionalOption_loop (store p i a) rest)"
    using parseLongOption_spaced[OF f t e, of v rest] h
    by (simp add: starts_with_def split: sum.splits)
  from I S show "parsePositionalOption p ((''--'' @ n @ ''='' @ v) # rest) =
      parsePositionalOption p ((''--'' @ n) # v # rest)"
    by (intro parsePositionalOption_cong) simp
  assume "validate (m_arguments p ! i) v"
  from I setValue_validate[OF t this]
  show "parsePositionalOption_loop p ((''--'' @ n @ ''='' @ v) # rest) =
         parsePositionalOption_loop (store p i (bound (m_arguments p ! i) v)) rest"
    by simp
next
  assume A: "findArgument p [c] = Some j \<and> m_type (m_arguments p ! j) = Option \<and>
    c \<noteq> CHR ''h'' \<and> c \<noteq> CHR ''-'' \<and> w \<noteq> []"
  then have f: "findArgument p [c] = Some j" and t: "m_type (m_arguments p ! j) \<noteq> Flag"
    and h: "c \<noteq> CHR ''h''" and d: "c \<noteq> CHR ''-''" and w: "w \<noteq> []" by simp_all
  from w obtain w0 ws where w': "w = w0 # ws" by (cases w) auto
  have I: "parsePositionalOption_loop p ((CHR ''-'' # c # w) # rest) =
        (case setValue (m_arguments p ! j) w of Inl e \<Rightarrow> Thrown e p
         | Inr a \<Rightarrow> parsePositionalOption_loop (store p j a) rest)"
    using parseShortOption_attached[OF f t w, of rest] d w'
    by (simp add: starts_with_def split: sum.splits)
  have S: "parsePositionalOption_loop p ([CHR ''-'', c] # w # rest) =
        (case setValue (m_arguments p ! j) w of Inl e \<Rightarrow> Thrown e p
         | Inr a \<Rightarrow> parsePositionalOption_loop (store p j a) rest)"
    using parseShortOption_spaced[OF f t, of w rest] d h
    by (simp add: starts_with_def split: sum.splits)
  from I S show "parsePositionalOption p ((CHR ''-'' # c # w) # rest) =
      parsePositionalOption p ([CHR ''-'', c] # w # rest)"
    by (intro parsePositionalOption_cong) simp
  assume "validate (m_arguments p ! j) w"
  from I setValue_validate[OF t this]
  show "parsePositionalOption_loop p ((CHR ''-'' # c # w) # rest) =
         parsePositionalOption_loop (store p j (bound (m_arguments p ! j) w)) rest"
    by simp
qed


text \<open>
  \<open>--output=result.txt\<close> against \<open>--output result.txt\<close> in the basic example, and
  \<open>-p8080\<close> against \<open>-p 8080\<close> in the advanced example.
\<close>

theorem inline_value_forms_witness:
  "parsePositionalOption basic_example [''--output=result.txt'', ''in''] =
   parsePositionalOption basic_example [''--output'', ''result.txt'', ''in''] \<and>
   ArgParser_getString (final (parsePositionalOption basic_example [''--output'', ''result.txt'', ''in''])) ''output'' = ''result.txt'' \<and>
   parsePositionalOption advanced_example [''-p8080'', ''-c'', ''x''] =
   parsePositionalOption advanced_example [''-p'', ''8080'', ''-c'', ''x''] \<and>
   ArgParser_getString (final (parsePositionalOption advanced_example [''-p'', ''8080'', ''-c'', ''x''])) ''p'' = ''8080''"
proof -
  have l: "findArgument basic_example ''output'' = Some 1 \<and> m_type (m_arguments basic_example ! 1) = Option \<and>
     CHR ''='' \<notin> set ''output'' \<and> ''output'' \<noteq> ''help''"
    by (simp add: basic_example_def parser_eval)
  have s: "findArgument advanced_example [CHR ''p''] = Some 1 \<and> m_type (m_arguments advanced_example ! 1) = Option \<and>
     CHR ''p'' \<noteq> CHR ''h'' \<and> CHR ''p'' \<noteq> CHR ''-'' \<and> ''8080'' \<noteq> []"
    by (simp add: advanced_example_def parser_eval)
  have vl: "validate (m_arguments basic_example ! 1) ''result.txt''"
    by (simp add: basic_example_def parser_eval validate_def)
  have vs: "validate (m_arguments advanced_example ! 1) ''8080''"
    by (simp add: advanced_example_def parser_eval validate_def stoi_eval)
  from inline_value_forms[of basic_example "''output''" 1 "''result.txt''" "[''in'']" "CHR ''o''" 1 "''x''"] l vl
  have L: "parsePositionalOption basic_example [''--output=result.txt'', ''in''] =
        parsePositionalOption basic_example [''--output'', ''result.txt'', ''in'']"
    and L2: "parsePositionalOption_loop basic_example [''--output=result.txt'', ''in''] =
         parsePositionalOption_loop (store basic_example 1 (bound (m_arguments basic_example ! 1) ''result.txt'')) [''in'']"
    by simp_all
  from inline_value_forms[of advanced_example "''port''" 1 "''1''" "[''-c'', ''x'']" "CHR ''p''" 1 "''8080''"] s vs
  have S: "parsePositionalOption advanced_example [''-p8080'', ''-c'', ''x''] =
        parsePositionalOption advanced_example [''-p'', ''8080'', ''-c'', ''x'']"
    and S2: "parsePositionalOption_loop advanced_example [''-p8080'', ''-c'', ''x''] =
         parsePositionalOption_loop (store advanced_example 1 (bound (m_arguments advanced_example ! 1) ''8080'')) [''-c'', ''x'']"
    by simp_all
  have G1: "ArgParser_getString (final (parsePositionalOption basic_example [''--output=result.txt'', ''in''])) ''output'' = ''result.txt''"
    unfolding parsePositionalOption_def L2
    by (simp add: basic_example_def parser_eval bound_def validateRequiredArgument_def missingName_def
         ArgParser_getString_def getString_def get_string_def activeValue_def)
  have G2: "ArgParser_getString (final (parsePositionalOption advanced_example [''-p8080'', ''-c'', ''x''])) ''p'' = ''8080''"
    unfolding parsePositionalOption_def S2
    by (simp add: advanced_example_def parser_eval bound_def validateRequiredArgument_def missingName_def
         ArgParser_getString_def getString_def get_string_def activeValue_def)
  from L S G1 G2 show ?thesis by simp
qed

text \<open>
  The claim as stated fails for the registered Option \<open>-h/--host\<close>: \<open>-hlocalhost\<close>
  stores \<open>localhost\<close> and returns, \<open>-h localhost\<close> prints the help and exits with
  the Option unset.
\<close>

theorem inline_value_forms_counterexample:
  "findArgument host_example ''h'' = Some 0 \<and> m_type (m_arguments host_example ! 0) = Option \<and>
   is_Returned (parsePositionalOption host_example [''-hlocalhost'']) \<and>
   ArgParser_getString (final (parsePositionalOption host_example [''-hlocalhost''])) ''h'' = ''localhost'' \<and>
   is_Exited (parsePositionalOption host_example [''-h'', ''localhost'']) \<and>
   \<not> ArgParser_isSet (final (parsePositionalOption host_example [''-h'', ''localhost''])) ''h''"
  by (simp add: host_example_def parser_eval parsePositionalOption_def validateRequiredArgument_def
        ArgParser_getString_def getString_def get_string_def activeValue_def ArgParser_isSet_def)

section \<open>Required arguments\<close>

lemma validateRequired_loop_find:
  "validateRequired_loop as =
     (case find (\<lambda>a. m_isRequired a \<and> \<not> m_isSet a) as of
        None \<Rightarrow> None
      | Some a \<Rightarrow> Some (MissingArgumentError
          (if m_type a = Positional then m_name a
           else if m_longName a \<noteq> [] then ''--'' @ m_longName a else ''-'' @ m_shortName a)))"
  by (induction as) (auto simp: missingName_def)

text \<open>
  Claim C3. When the token pass and the positional binding have completed without
  error, with the Arguments \<open>as\<close>, the parse is decided by the first Argument in
  declaration order that is required and not set: if there is none the parse returns,
  otherwise it throws MissingArgumentError for that one and looks no further. The error
  names a positional by its name, and a Flag or Option by \<open>--\<close> and its long name when
  that is not empty, else by \<open>-\<close> and its short name.
\<close>

theorem required_validation:
  assumes "parsePositionalOption_loop p args = Returned p1"
      and "bindPositionals (m_positionalValues p1) 0 (m_arguments p1) = (None, as)"
  shows "validateRequiredArgument (p1\<lparr>m_arguments := as\<rparr>) =
     (case find (\<lambda>a. m_isRequired a \<and> \<not> m_isSet a) as of
        None \<Rightarrow> None
      | Some a \<Rightarrow> Some (MissingArgumentError
          (if m_type a = Positional then m_name a
           else if m_longName a \<noteq> [] then ''--'' @ m_longName a else ''-'' @ m_shortName a))) \<and>
   parsePositionalOption p args =
     (case find (\<lambda>a. m_isRequired a \<and> \<not> m_isSet a) as of
        None \<Rightarrow> Returned (p1\<lparr>m_arguments := as\<rparr>)
      | Some a \<Rightarrow> Thrown (MissingArgumentError
          (if m_type a = Positional then m_name a
           else if m_longName a \<noteq> [] then ''--'' @ m_longName a else ''-'' @ m_shortName a))
          (p1\<lparr>m_arguments := as\<rparr>))"
  using assms
  by (simp add: parsePositionalOption_def validateRequiredArgument_def validateRequired_loop_find
           split: option.splits)

text \<open>
  With all three required Arguments missing the error names the first, \<open>-k\<close>; once
  \<open>-k\<close> is given it names the next, \<open>src\<close>.
\<close>

theorem required_validation_witness:
  "parsePositionalOption required_example [] = Thrown (MissingArgumentError ''-k'') required_example \<and>
   parsePositionalOption required_example [''-k1''] =
     Thrown (MissingArgumentError ''src'') (store required_example 0 (bound (m_arguments required_example ! 0) ''1''))"
proof -
  have h: "parsePositionalOption_loop required_example [] = Returned required_example" by simp
  have b: "bindPositionals (m_positionalValues required_example) 0 (m_arguments required_example) =
            (None, m_arguments required_example)"
    by (simp add: required_example_def parser_eval)
  let ?p1 = "store required_example 0 (bound (m_arguments required_example ! 0) ''1'')"
  have h2: "parsePositionalOption_loop required_example [''-k1''] = Returned ?p1"
    by (simp add: required_example_def parser_eval bound_def)
  have b2: "bindPositionals (m_positionalValues ?p1) 0 (m_arguments ?p1) = (None, m_arguments ?p1)"
    by (simp add: required_example_def parser_eval bound_def)
  from required_validation[OF h b] required_validation[OF h2 b2] show ?thesis
    by (simp add: required_example_def parser_eval bound_def)
qed

section \<open>Typed retrieval\<close>

text \<open>
  Claim C5. An active string does not parse as a number when the conversion throws
  (\<open>stoi\<close>, or \<open>stod\<close>, is \<open>None\<close>). Then \<open>get<int>\<close> is absent, a value and not an
  exception, and \<open>getInt\<close> throws ValidationError; likewise \<open>get<double>\<close> and
  \<open>getDouble\<close>, for any conversion \<open>stod\<close>.
\<close>

theorem numeric_retrieval_failure:
  "(stoi (activeValue a) = None \<longrightarrow>
      get_int a = None \<and> getInt a = Inl (ValidationError ''Cannot convert value to int'')) \<and>
   (stod (activeValue a) = None \<longrightarrow>
      get_double stod a = None \<and> getDouble stod a = Inl (ValidationError ''Cannot convert value to double''))"
  by (simp add: get_int_def getInt_def get_double_def getDouble_def)

theorem numeric_retrieval_failure_witness:
  "stoi ''abc'' = None \<and>
   get_int (bound (Argument_option ''n'' ''num'' ''A number'' []) ''abc'') = None \<and>
   getInt (bound (Argument_option ''n'' ''num'' ''A number'' []) ''abc'') =
     Inl (ValidationError ''Cannot convert value to int'') \<and>
   get_double stoi (bound (Argument_option ''n'' ''num'' ''A number'' []) ''abc'') = None \<and>
   getDouble stoi (bound (Argument_option ''n'' ''num'' ''A number'' []) ''abc'') =
     Inl (ValidationError ''Cannot convert value to double'')"
proof -
  have a: "activeValue (bound (Argument_option ''n'' ''num'' ''A number'' []) ''abc'') = ''abc''"
    by (simp add: activeValue_def bound_def Argument_option_def)
  have n: "stoi ''abc'' = None" by (simp add: stoi_eval)
  from numeric_retrieval_failure[of "bound (Argument_option ''n'' ''num'' ''A number'' []) ''abc''" stoi] a n
  show ?thesis by simp
qed

text \<open>
  Claim C6. For an Argument that is not set and has a non-empty default, typed retrieval
  reads the default: \<open>get<string>\<close> is the default itself, \<open>get<int>\<close> and
  \<open>get<double>\<close> are what the conversion makes of the default, so a default that parses
  is returned parsed and not as an absent result. A default \<open>8080\<close> yields 8080. (The
  kind of the Argument plays no role; only an Option is given a default on declaration.)
\<close>

theorem default_retrieval:
  assumes "\<not> m_isSet a" and "m_defaultValue a \<noteq> []"
  shows "get_string a = Some (m_defaultValue a) \<and>
         get_int a = stoi (m_defaultValue a) \<and>
         get_double stod a = stod (m_defaultValue a) \<and>
         (m_defaultValue a = ''8080'' \<longrightarrow> get_int a = Some 8080)"
  using assms by (simp add: get_string_def get_int_def get_double_def activeValue_def stoi_eval)

text \<open>
  In the advanced example, after \<open>--config c.json\<close> the option \<open>port\<close> was never set
  and \<open>get<int>("port")\<close> is 8080.
\<close>

theorem default_retrieval_witness:
  "is_Returned (parsePositionalOption advanced_example [''--config'', ''c.json'']) \<and>
   \<not> ArgParser_isSet (final (parsePositionalOption advanced_example [''--config'', ''c.json''])) ''port'' \<and>
   ArgParser_get_string (final (parsePositionalOption advanced_example [''--config'', ''c.json''])) ''port'' = Some ''8080'' \<and>
   ArgParser_get_int (final (parsePositionalOption advanced_example [''--config'', ''c.json''])) ''port'' = Some 8080"
proof -
  let ?p = "final (parsePositionalOption advanced_example [''--config'', ''c.json''])"
  have r: "parsePositionalOption advanced_example [''--config'', ''c.json''] =
      Returned (store advanced_example 2 (bound (m_arguments advanced_example ! 2) ''c.json''))"
    by (simp add: advanced_example_def parser_eval bound_def parsePositionalOption_def
          validateRequiredArgument_def missingName_def)
  have f: "findArgument ?p ''port'' = Some 1" unfolding r by (simp add: advanced_example_def parser_eval)
  have u: "\<not> m_isSet (m_arguments ?p ! 1)" unfolding r by (simp add: advanced_example_def parser_eval)
  have d: "m_defaultValue (m_arguments ?p ! 1) = ''8080''" unfolding r by (simp add: advanced_example_def parser_eval)
  from d have d': "m_defaultValue (m_arguments ?p ! 1) \<noteq> []" by simp
  from default_retrieval[OF u d', of stoi] d f u r show ?thesis
    by (simp add: ArgParser_get_string_def ArgParser_get_int_def ArgParser_isSet_def findArgument_def stoi_eval)
qed

text \<open>
  Claim C8. \<open>ArgParser::getBool\<close> is \<open>ArgParser::isSet\<close>: false for an unknown name,
  and the \<open>isSet\<close> flag of the Argument for a registered one. For an Argument that is
  not a Flag this differs from \<open>Argument::getBool\<close> and \<open>get<bool>\<close>, which convert the
  active string: set to \<open>false\<close>, the parser says true and the Argument false; unset
  with default \<open>true\<close>, the parser says false and the Argument true.
\<close>

theorem parser_getBool_is_isSet:
  "ArgParser_getBool p name = ArgParser_isSet p name \<and>
   (findArgument p name = None \<longrightarrow> \<not> ArgParser_getBool p name) \<and>
   (findArgument p name = Some i \<longrightarrow> ArgParser_getBool p name = m_isSet (m_arguments p ! i)) \<and>
   (findArgument p name = Some i \<and> m_type (m_arguments p ! i) \<noteq> Flag \<and>
    m_isSet (m_arguments p ! i) \<and> m_currentValue (m_arguments p ! i) = ''false'' \<longrightarrow>
      ArgParser_getBool p name \<and> \<not> getBool (m_arguments p ! i) \<and>
      ArgParser_get_bool p name = Some False) \<and>
   (findArgument p name = Some i \<and> m_type (m_arguments p ! i) \<noteq> Flag \<and>
    \<not> m_isSet (m_arguments p ! i) \<and> m_defaultValue (m_arguments p ! i) = ''true'' \<longrightarrow>
      \<not> ArgParser_getBool p name \<and> getBool (m_arguments p ! i) \<and>
      ArgParser_get_bool p name = Some True)"
  by (auto simp: ArgParser_getBool_def ArgParser_isSet_def ArgParser_get_bool_def getBool_def
        get_bool_def activeValue_def tolower_def)


text \<open>
  The basic example after \<open>--output false in\<close>, a parser with an unset option of
  default \<open>true\<close>, and an unknown name.
\<close>

theorem parser_getBool_is_isSet_witness:
  "ArgParser_getBool (final (parsePositionalOption basic_example [''--output'', ''false'', ''in''])) ''output'' \<and>
   ArgParser_get_bool (final (parsePositionalOption basic_example [''--output'', ''false'', ''in''])) ''output'' = Some False \<and>
   \<not> ArgParser_getBool (fst (addOption (ArgParser_new [] []) ''e'' ''enabled'' ''Enable'' ''true'')) ''enabled'' \<and>
   ArgParser_get_bool (fst (addOption (ArgParser_new [] []) ''e'' ''enabled'' ''Enable'' ''true'')) ''enabled'' = Some True \<and>
   \<not> ArgParser_getBool basic_example ''nope''"
proof -
  let ?p = "final (parsePositionalOption basic_example [''--output'', ''false'', ''in''])"
  let ?q = "fst (addOption (ArgParser_new [] []) ''e'' ''enabled'' ''Enable'' ''true'')"
  have r: "parsePositionalOption basic_example [''--output'', ''false'', ''in''] =
      Returned (store (store basic_example 1 (bound (m_arguments basic_example ! 1) ''false'')
                  \<lparr>m_positionalValues := [''in'']\<rparr>) 2 (bound (m_arguments basic_example ! 2) ''in''))"
    by (simp add: basic_example_def parser_eval bound_def parsePositionalOption_def
          validateRequiredArgument_def missingName_def)
  have p: "findArgument ?p ''output'' = Some 1 \<and> m_type (m_arguments ?p ! 1) \<noteq> Flag \<and>
    m_isSet (m_arguments ?p ! 1) \<and> m_currentValue (m_arguments ?p ! 1) = ''false''"
    unfolding r by (simp add: basic_example_def parser_eval bound_def)
  have q: "findArgument ?q ''enabled'' = Some 0 \<and> m_type (m_arguments ?q ! 0) \<noteq> Flag \<and>
    \<not> m_isSet (m_arguments ?q ! 0) \<and> m_defaultValue (m_arguments ?q ! 0) = ''true''"
    by (simp add: parser_eval)
  have n: "findArgument basic_example ''nope'' = None"
    by (simp add: basic_example_def parser_eval)
  from parser_getBool_is_isSet[of ?p "''output''" 1] p parser_getBool_is_isSet[of ?q "''enabled''" 0] q parser_getBool_is_isSet[of basic_example "''nope''" 0] n
  show ?thesis by blast
qed

section \<open>Positional binding\<close>

text \<open>
  The values that the pass appends to \<open>m_positionalValues\<close> are the positional tokens
  of the specification, in token order, whatever options stand between them.
\<close>

lemma takesNextToken_sameRegistry:
  "sameRegistry p p' \<Longrightarrow> takesNextToken p' t = takesNextToken p t"
  by (auto simp: sameRegistry_def takesNextToken_def findArgument_def split: option.splits)

lemma positionalTokens_sameRegistry:
  "sameRegistry p p' \<Longrightarrow> positionalTokens p' ts = positionalTokens p ts"
  by (induction p ts rule: positionalTokens.induct)
     (simp_all add: takesNextToken_sameRegistry)

lemma find_char_Some: "find_char s c = Some k \<Longrightarrow> c \<in> set s"
  using find_char_None[of s c] by auto

lemma parseLongOption_rest:
  assumes "starts_with arg ''--''" and "parseLongOption p arg rest = Inr (p', r')"
  shows "r' = (if takesNextToken p arg then drop 1 rest else rest)"
proof (cases "find_char arg CHR ''=''")
  case None
  then have "CHR ''='' \<notin> set arg" by (simp add: find_char_None)
  with None assms show ?thesis
    by (auto simp: parseLongOption_def takesNextToken_def Let_def substr_from_def
           split: option.splits if_splits sum.splits list.splits)
next
  case (Some k)
  then have "CHR ''='' \<in> set arg" by (rule find_char_Some)
  with Some assms show ?thesis
    by (auto simp: parseLongOption_def takesNextToken_def Let_def
           split: option.splits if_splits sum.splits list.splits)
qed

lemma parseShortOption_rest:
  assumes "\<not> starts_with arg ''--''" and "length arg > 1" and "parseShortOption p arg rest = Inr (p', r')"
  shows "r' = (if takesNextToken p arg then drop 1 rest else rest)"
  using assms
  by (auto simp: parseShortOption_def takesNextToken_def Let_def substr_def
           split: option.splits if_splits sum.splits list.splits)

lemma loop_positionalValues:
  "parsePositionalOption_loop p args = Returned p1 \<Longrightarrow>
   m_positionalValues p1 = m_positionalValues p @ positionalTokens p args"
proof (induction p args rule: parsePositionalOption_loop.induct)
  case (1 p)
  then show ?case by simp
next
  case (2 p arg rest)
  show ?case
  proof (cases "arg = ''--help'' \<or> arg = ''-h''")
    case True
    with "2.prems" show ?thesis by simp
  next
    case nh: False
    show ?thesis
    proof (cases "starts_with arg ''--''")
      case True
      with nh "2.prems" obtain p' r' where L: "parseLongOption p arg rest = Inr (p', r')"
        and R: "parsePositionalOption_loop p' r' = Returned p1"
        by (auto split: sum.splits)
      from parseLongOption_state[OF L] have S: "sameRegistry p p'"
        and V: "m_positionalValues p' = m_positionalValues p" by simp_all
      from "2.IH"(1)[OF nh True L refl R] V positionalTokens_sameRegistry[OF S]
        parseLongOption_rest[OF True L] True
      show ?thesis by simp
    next
      case nl: False
      show ?thesis
      proof (cases "starts_with arg ''-'' \<and> length arg > 1")
        case True
        with nh nl "2.prems" obtain p' r' where L: "parseShortOption p arg rest = Inr (p', r')"
          and R: "parsePositionalOption_loop p' r' = Returned p1"
          by (auto split: sum.splits)
        from parseShortOption_state[OF L] have S: "sameRegistry p p'"
          and V: "m_positionalValues p' = m_positionalValues p" by simp_all
        from True have len: "length arg > 1" by simp
        from "2.IH"(2)[OF nh nl True L refl R] V positionalTokens_sameRegistry[OF S]
          parseShortOption_rest[OF nl len L] True nl
        show ?thesis by simp
      next
        case np: False
        from nh nl np "2.prems"
        have R: "parsePositionalOption_loop (p\<lparr>m_positionalValues := m_positionalValues p @ [arg]\<rparr>) rest = Returned p1"
          by (simp split: if_splits)
        have S: "sameRegistry p (p\<lparr>m_positionalValues := m_positionalValues p @ [arg]\<rparr>)"
          by (simp add: sameRegistry_def)
        from "2.IH"(3)[OF nh nl np R] positionalTokens_sameRegistry[OF S] nl np
        show ?thesis by auto
      qed
    qed
  qed
qed

lemma setValue_bound: "setValue a v = Inr a' \<Longrightarrow> a' = bound a v"
  by (auto simp: setValue_def bound_def split: if_splits option.splits)

lemma bindPositionals_result:
  "bindPositionals vals idx xs = (None, ys) \<Longrightarrow>
   map m_type ys = map m_type xs \<and>
   filter (\<lambda>a. \<not> isPositional a) ys = filter (\<lambda>a. \<not> isPositional a) xs \<and>
   filter isPositional ys =
     map2 bound (filter isPositional xs) (drop idx vals) @
     drop (length vals - idx) (filter isPositional xs)"
proof (induction xs arbitrary: idx ys)
  case Nil
  then show ?case by simp
next
  case (Cons a as)
  show ?case
  proof (cases "m_type a = Positional \<and> idx < length vals")
    case True
    with Cons.prems obtain a' as' where a': "setValue a (vals ! idx) = Inr a'"
      and r: "bindPositionals vals (idx + 1) as = (None, as')" and ys: "ys = a' # as'"
      by (auto split: sum.splits prod.splits)
    from setValue_bound[OF a'] have b: "a' = bound a (vals ! idx)" .
    from True have d: "drop idx vals = vals ! idx # drop (Suc idx) vals"
      by (simp add: Cons_nth_drop_Suc)
    from True have "idx < length vals" by simp
    then have l: "length vals - idx = Suc (length vals - Suc idx)" by arith
    from Cons.IH[OF r] True b ys d l show ?thesis
      by (simp add: isPositional_def bound_def)
  next
    case False
    with Cons.prems obtain as' where r: "bindPositionals vals idx as = (None, as')"
      and ys: "ys = a # as'"
      by (auto split: sum.splits prod.splits)
    from Cons.IH[OF r] False ys show ?thesis
      by (auto simp: isPositional_def)
  qed
qed


lemma parsePositionalOption_final:
  assumes "parsePositionalOption_loop p args = Returned p1"
      and "bindPositionals (m_positionalValues p1) 0 (m_arguments p1) = (None, as)"
  shows "final (parsePositionalOption p args) = p1\<lparr>m_arguments := as\<rparr>"
  using assms by (simp add: parsePositionalOption_def split: option.splits)

text \<open>
  Claim C2, as amended. Let the token pass return with state \<open>p1\<close> and the binding
  complete without error with the Arguments \<open>as\<close>. The positional values are those held
  before the parse (none for a fresh parser) followed by the positional tokens in token
  order. The N-th declared positional receives the N-th positional value when there is
  one, and is otherwise left exactly as the token pass left it; no other Argument is
  touched and the kinds are unchanged; values beyond the declared positionals stay in
  the positional values and are bound to nothing. This is the state that the caller
  finds, whether the required-argument check then succeeds or not. The claim says that
  a positional without a value remains unset; the binding does not set it, but a token
  of the pass may have done so.
\<close>

theorem positional_binding:
  assumes "parsePositionalOption_loop p args = Returned p1"
      and "bindPositionals (m_positionalValues p1) 0 (m_arguments p1) = (None, as)"
  shows "m_positionalValues p1 = m_positionalValues p @ positionalTokens p args \<and>
         final (parsePositionalOption p args) = p1\<lparr>m_arguments := as\<rparr> \<and>
         map m_type as = map m_type (m_arguments p1) \<and>
         (\<forall>N < length (filter isPositional (m_arguments p1)).
            filter isPositional as ! N =
              (if N < length (m_positionalValues p1)
               then bound (filter isPositional (m_arguments p1) ! N) (m_positionalValues p1 ! N)
               else filter isPositional (m_arguments p1) ! N)) \<and>
         filter (\<lambda>a. \<not> isPositional a) as = filter (\<lambda>a. \<not> isPositional a) (m_arguments p1)"
proof -
  let ?ps = "filter isPositional (m_arguments p1)"
  let ?vals = "m_positionalValues p1"
  from bindPositionals_result[OF assms(2)]
  have T: "map m_type as = map m_type (m_arguments p1)"
    and O: "filter (\<lambda>a. \<not> isPositional a) as = filter (\<lambda>a. \<not> isPositional a) (m_arguments p1)"
    and P: "filter isPositional as = map2 bound ?ps ?vals @ drop (length ?vals) ?ps"
    by simp_all
  have N: "filter isPositional as ! N =
              (if N < length ?vals then bound (?ps ! N) (?vals ! N) else ?ps ! N)"
    if "N < length ?ps" for N
  proof (cases "N < length ?vals")
    case True
    with that have "N < length (map2 bound ?ps ?vals)" by simp
    then have "filter isPositional as ! N = map2 bound ?ps ?vals ! N"
      unfolding P by (simp add: nth_append)
    with True that show ?thesis by simp
  next
    case False
    then have l: "length (map2 bound ?ps ?vals) = length ?vals" using that by simp
    from False that have "filter isPositional as ! N = drop (length ?vals) ?ps ! (N - length ?vals)"
      unfolding P by (simp add: nth_append l)
    with False that show ?thesis by simp
  qed
  from loop_positionalValues[OF assms(1)] parsePositionalOption_final[OF assms] T O N
  show ?thesis by blast
qed

text \<open>
  \<open>--verbose a.txt -o x b.txt\<close> binds \<open>input\<close> to \<open>a.txt\<close> and \<open>output\<close> to
  \<open>b.txt\<close>, and leaves \<open>extra\<close> unset.
\<close>

theorem positional_binding_witness:
  "positionalArguments (final (parsePositionalOption copy_example [''--verbose'', ''a.txt'', ''-o'', ''x'', ''b.txt''])) =
     [''a.txt'', ''b.txt''] \<and>
   positionalTokens copy_example [''--verbose'', ''a.txt'', ''-o'', ''x'', ''b.txt''] = [''a.txt'', ''b.txt''] \<and>
   ArgParser_get_string (final (parsePositionalOption copy_example [''--verbose'', ''a.txt'', ''-o'', ''x'', ''b.txt''])) ''input'' = Some ''a.txt'' \<and>
   ArgParser_get_string (final (parsePositionalOption copy_example [''--verbose'', ''a.txt'', ''-o'', ''x'', ''b.txt''])) ''output'' = Some ''b.txt'' \<and>
   \<not> ArgParser_isSet (final (parsePositionalOption copy_example [''--verbose'', ''a.txt'', ''-o'', ''x'', ''b.txt''])) ''extra''"
proof -
  let ?args = "[''--verbose'', ''a.txt'', ''-o'', ''x'', ''b.txt'']"
  let ?p1 = "store (store copy_example 0 ((m_arguments copy_example ! 0)\<lparr>m_isSet := True\<rparr>)) 1
               (bound (m_arguments copy_example ! 1) ''x'')\<lparr>m_positionalValues := [''a.txt'', ''b.txt'']\<rparr>"
  let ?as = "(m_arguments ?p1)[2 := bound (m_arguments copy_example ! 2) ''a.txt'',
                               3 := bound (m_arguments copy_example ! 3) ''b.txt'']"
  have h: "parsePositionalOption_loop copy_example ?args = Returned ?p1"
    by (simp add: copy_example_def parser_eval bound_def)
  have b: "bindPositionals (m_positionalValues ?p1) 0 (m_arguments ?p1) = (None, ?as)"
    by (simp add: copy_example_def parser_eval bound_def)
  from positional_binding[OF h b]
  have F: "final (parsePositionalOption copy_example ?args) = ?p1\<lparr>m_arguments := ?as\<rparr>"
    and V: "m_positionalValues ?p1 = m_positionalValues copy_example @ positionalTokens copy_example ?args"
    by simp_all
  from V have S: "positionalTokens copy_example ?args = [''a.txt'', ''b.txt'']"
    by (simp add: copy_example_def parser_eval)
  show ?thesis unfolding F S
    by (simp add: copy_example_def parser_eval bound_def positionalArguments_def
          ArgParser_get_string_def get_string_def activeValue_def ArgParser_isSet_def)
qed

text \<open>
  The claim as stated fails in the basic example: \<open>--input=foo\<close> supplies no
  positional token, and the declared positional \<open>input\<close>, unset before, is set to
  \<open>foo\<close> by the long-option path, which finds it in the shared name map.
\<close>

theorem positional_remains_unset_counterexample:
  "positionalTokens basic_example [''--input=foo''] = [] \<and>
   m_type (m_arguments basic_example ! 2) = Positional \<and>
   \<not> m_isSet (m_arguments basic_example ! 2) \<and>
   is_Returned (parsePositionalOption basic_example [''--input=foo'']) \<and>
   positionalArguments (final (parsePositionalOption basic_example [''--input=foo''])) = [] \<and>
   m_isSet (m_arguments (final (parsePositionalOption basic_example [''--input=foo''])) ! 2) \<and>
   m_currentValue (m_arguments (final (parsePositionalOption basic_example [''--input=foo''])) ! 2) = ''foo''"
  by (simp add: basic_example_def parser_eval parsePositionalOption_def validateRequiredArgument_def
        missingName_def positionalArguments_def takesNextToken_def)

end
